theory Spec2Isabelle
  imports Main
begin

section \<open>The coin ledger server (src/server.js)\<close>

text \<open>
  The server keeps one document per player in the collection \<^verbatim>\<open>players\<close>, keyed by the
  normalised phone number, and appends one document to \<^verbatim>\<open>playerEvents\<close> for every
  award and every spend. Four handlers touch the store: \<^verbatim>\<open>/register\<close>,
  \<^verbatim>\<open>/partyResult\<close>, \<^verbatim>\<open>/spend\<close> and \<^verbatim>\<open>/coins\<close>.

  Scope of the model. Requests are handled one at a time (a transaction is one atomic
  step, and a transaction that fails writes nothing); the shared-secret check
  \<^verbatim>\<open>requireSecret\<close> runs before a handler and is left out, as are faults of the store
  that do not depend on the request (an unreachable store, exhausted retries).
  Request fields are typed: a phone, game id, name or reason is a string or absent, an
  amount, score or coin count is an integer or absent (JavaScript numbers that are not
  integers, and bodies that send another JSON type, are outside the model). A number of
  a request is the JavaScript number the handler holds, a double with an integer value;
  the arithmetic of the store on such numbers is modelled below. A string is a list of
  characters; the normaliser looks at one character at a time and keeps only ASCII ones,
  so the encoding of the others does not matter.
\<close>

subsection \<open>Key normaliser\<close>

text \<open>
  \<^verbatim>\<open>const normalizePhone = (p = "") => p.replace(/[^0-9+]/g, "");\<close>

  The character class \<^verbatim>\<open>[^0-9+]\<close> matches every character that is neither a decimal
  digit nor a plus sign; with the flag \<^verbatim>\<open>g\<close> every match is replaced by the empty
  string, scanning from the left.
\<close>

definition kept :: "char \<Rightarrow> bool" where
  "kept c = (c \<in> set ''0123456789'' \<or> c = CHR ''+'')"

fun normalizePhone :: "string \<Rightarrow> string" where
  "normalizePhone [] = []"
| "normalizePhone (c # cs) = (if kept c then c # normalizePhone cs else normalizePhone cs)"

subsection \<open>Numbers\<close>

text \<open>
  JavaScript numbers are IEEE 754 doubles. The Firestore client sends a number as an
  integer value when \<^verbatim>\<open>Number.isSafeInteger\<close> holds (magnitude below \<open>2^53\<close>) and as a
  double value otherwise. The store keeps integer values as 64-bit integers and adds them
  with saturation; as soon as one operand of an increment is a double, both are taken as
  doubles and added with rounding to the nearest double, ties to even. Reading an integer
  value back gives the nearest double (\<^verbatim>\<open>Number(integerValue)\<close>).
\<close>

definition safe :: "int \<Rightarrow> bool" where
  "safe n = (- (2 ^ 53) < n \<and> n < 2 ^ 53)"

definition clamp64 :: "int \<Rightarrow> int" where
  "clamp64 n = max (- (2 ^ 63)) (min (2 ^ 63 - 1) n)"

text \<open>
  The distance between neighbouring doubles at a magnitude \<open>m \<ge> 0\<close> (1 below \<open>2^53\<close>,
  2 below \<open>2^54\<close>, and so on), and the double nearest to an integer.
\<close>

function ulp :: "int \<Rightarrow> int" where
  "ulp m = (if m < 2 ^ 53 then 1 else 2 * ulp (m div 2))"
  by pat_completeness auto
termination
  by (relation "measure nat") auto

declare ulp.simps [simp del]

definition round_mag :: "int \<Rightarrow> int" where
  "round_mag m =
     (let q = ulp m; n = m div q; r = m mod q in
      if 2 * r < q then n * q
      else if q < 2 * r then (n + 1) * q
      else if even n then n * q else (n + 1) * q)"

definition round53 :: "int \<Rightarrow> int" where
  "round53 m = (if m < 0 then - round_mag (- m) else round_mag m)"

text \<open>
  A double with an integer value, or one of the special values. A sum of doubles whose
  rounded magnitude reaches \<open>2^1024\<close> is an infinity.
\<close>

datatype dbl = Fin int | PosInf | NegInf | NaN

definition dbl_of_int :: "int \<Rightarrow> dbl" where
  "dbl_of_int m =
     (let r = round53 m in
      if 2 ^ 1024 \<le> r then PosInf else if r \<le> - (2 ^ 1024) then NegInf else Fin r)"

fun dbl_add :: "dbl \<Rightarrow> dbl \<Rightarrow> dbl" where
  "dbl_add (Fin a) (Fin b) = dbl_of_int (a + b)"
| "dbl_add NaN y = NaN"
| "dbl_add x NaN = NaN"
| "dbl_add PosInf NegInf = NaN"
| "dbl_add NegInf PosInf = NaN"
| "dbl_add PosInf y = PosInf"
| "dbl_add x PosInf = PosInf"
| "dbl_add NegInf y = NegInf"
| "dbl_add x NegInf = NegInf"

text \<open>\<^verbatim>\<open>x < a\<close> for a double \<open>x\<close> and a number \<open>a\<close> of a request.\<close>

fun dbl_less :: "dbl \<Rightarrow> int \<Rightarrow> bool" where
  "dbl_less (Fin b) a = (b < a)"
| "dbl_less PosInf a = False"
| "dbl_less NegInf a = True"
| "dbl_less NaN a = False"

subsection \<open>Documents of the store\<close>

text \<open>
  A Firestore document is a map from field names to values; a value may itself be a map
  (a nested document). The server stores strings, numbers and server timestamps. A number
  is \<open>Num n\<close>, which JavaScript reads back as the integer \<open>n\<close>: an integer value in the
  safe range, or a number the server wrote as a plain value (the score fields, where the
  store's representation never shows). The balance, the only field the server increments,
  can also become \<open>Long n\<close>, an integer value outside the safe range, or \<open>Dbl x\<close>, a
  double value.
\<close>

datatype fsvalue =
    Num int
  | Long int
  | Dbl dbl
  | Str string
  | Time nat
  | Obj "string \<Rightarrow> fsvalue option"

type_synonym document = "string \<Rightarrow> fsvalue option"

text \<open>JavaScript truthiness of a value read from a document; \<open>None\<close> is \<^verbatim>\<open>undefined\<close>.\<close>

fun truthy :: "fsvalue option \<Rightarrow> bool" where
  "truthy None = False"
| "truthy (Some (Num n)) = (n \<noteq> 0)"
| "truthy (Some (Long n)) = (n \<noteq> 0)"
| "truthy (Some (Dbl x)) = (x \<noteq> Fin 0 \<and> x \<noteq> NaN)"
| "truthy (Some (Str s)) = (s \<noteq> [])"
| "truthy (Some (Time t)) = True"
| "truthy (Some (Obj m)) = True"

text \<open>
  \<^verbatim>\<open>snap.get(field)\<close> with a string argument. The library first validates the string (it
  must not contain \<^verbatim>\<open>..\<close>, must not start or end with a dot, and must be non-empty and
  free of the characters \<^verbatim>\<open>* ~ / [ ]\<close>; otherwise it throws), then splits it at the dots
  (\<^verbatim>\<open>fieldPath.split('.')\<close>) and walks the nested maps along the segments. A segment that
  is missing, or that is not a map while segments remain, gives \<^verbatim>\<open>undefined\<close>.
\<close>

fun split_dots :: "string \<Rightarrow> string list" where
  "split_dots [] = [[]]"
| "split_dots (c # cs) =
     (if c = CHR ''.'' then [] # split_dots cs
      else (case split_dots cs of
              [] \<Rightarrow> [[c]]
            | seg # segs \<Rightarrow> (c # seg) # segs))"

definition valid_field_path :: "string \<Rightarrow> bool" where
  "valid_field_path s =
     ([] \<notin> set (split_dots s) \<and> list_all (\<lambda>c. c \<notin> set ''*~/[]'') s)"

fun proto_field :: "document \<Rightarrow> string list \<Rightarrow> fsvalue option" where
  "proto_field fields [] = None"
| "proto_field fields [c] = fields c"
| "proto_field fields (c # c' # cs) =
     (case fields c of
        Some (Obj m) \<Rightarrow> proto_field m (c' # cs)
      | _ \<Rightarrow> None)"

datatype fault =
    InvalidDocumentPath  \<comment> \<open>\<^verbatim>\<open>players.doc("")\<close>: the path must be a non-empty string\<close>
  | InvalidFieldPath     \<comment> \<open>\<^verbatim>\<open>snap.get\<close> on a string that is not a field path\<close>
  | NotFound             \<comment> \<open>\<^verbatim>\<open>tx.update\<close> of a document that does not exist\<close>

definition snap_get :: "document \<Rightarrow> string \<Rightarrow> fault + fsvalue option" where
  "snap_get d field =
     (if valid_field_path field then Inr (proto_field d (split_dots field))
      else Inl InvalidFieldPath)"

text \<open>
  \<^verbatim>\<open>FieldValue.increment(n)\<close> on a field. The operand \<open>n\<close> is an integer value when it is
  safe and a double value otherwise. Two integer values are added as 64-bit integers, the
  sum clamped to their range; with a double on either side the sum is a sum of doubles. A
  field that is absent or not a number is set to the operand.
\<close>

definition int_value :: "int \<Rightarrow> fsvalue" where
  "int_value i = (if safe i then Num i else Long i)"

definition add_to_int :: "int \<Rightarrow> int \<Rightarrow> fsvalue" where
  "add_to_int m n =
     (if safe n then int_value (clamp64 (m + n))
      else Dbl (dbl_add (dbl_of_int m) (dbl_of_int n)))"

fun increment :: "fsvalue option \<Rightarrow> int \<Rightarrow> fsvalue" where
  "increment (Some (Num m)) n = add_to_int m n"
| "increment (Some (Long m)) n = add_to_int m n"
| "increment (Some (Dbl x)) n = Dbl (dbl_add x (dbl_of_int n))"
| "increment old n = (if safe n then Num n else Dbl (dbl_of_int n))"

text \<open>
  What a write puts into a field: a plain value, \<^verbatim>\<open>FieldValue.increment(n)\<close>, or
  \<^verbatim>\<open>FieldValue.serverTimestamp()\<close> (the time of the commit, \<open>now\<close> below).
\<close>

datatype fswrite =
    Value fsvalue
  | Increment int
  | ServerTimestamp

fun apply_write :: "nat \<Rightarrow> fsvalue option \<Rightarrow> fswrite \<Rightarrow> fsvalue" where
  "apply_write now old (Value v) = v"
| "apply_write now old (Increment n) = increment old n"
| "apply_write now old ServerTimestamp = Time now"

definition write_field :: "nat \<Rightarrow> string \<times> fswrite \<Rightarrow> document \<Rightarrow> document" where
  "write_field now kw d = d(fst kw \<mapsto> apply_write now (d (fst kw)) (snd kw))"

text \<open>
  \<^verbatim>\<open>set(data, {merge: true})\<close> creates the document when it is missing and writes the
  fields of \<open>data\<close>, leaving all other fields as they are. The keys of \<open>data\<close> are field
  names as they stand: \<^verbatim>\<open>set\<close> does not split a key at its dots (only \<^verbatim>\<open>update\<close> and
  \<^verbatim>\<open>snap.get\<close> read a string as a dotted path), so the key
  \<^verbatim>\<open>partyScores.run.bestScore\<close> names one top-level field.
\<close>

definition set_merge :: "nat \<Rightarrow> (string \<times> fswrite) list \<Rightarrow> document option \<Rightarrow> document" where
  "set_merge now data snap =
     fold (write_field now) data (case snap of None \<Rightarrow> Map.empty | Some d \<Rightarrow> d)"

text \<open>
  \<^verbatim>\<open>update(data)\<close> fails when the document does not exist. The server calls it with the
  keys \<^verbatim>\<open>coins\<close>, \<^verbatim>\<open>lastSource\<close> and \<^verbatim>\<open>updatedAt\<close> only, which have no dots, so
  each key is one top-level field here too.
\<close>

definition tx_update :: "nat \<Rightarrow> (string \<times> fswrite) list \<Rightarrow> document option \<Rightarrow> document option" where
  "tx_update now data snap =
     (case snap of None \<Rightarrow> None | Some d \<Rightarrow> Some (fold (write_field now) data d))"

subsection \<open>State, requests and responses\<close>

record event =
  ev_phone :: string
  ev_source :: string
  ev_score :: "int option"
  ev_amount :: int
  ev_createdAt :: nat

record state =
  players :: "string \<Rightarrow> document option"
  events :: "event list"

definition empty_state :: state where
  "empty_state = \<lparr>players = Map.empty, events = []\<rparr>"

text \<open>
  A response is \<^verbatim>\<open>{ok: true}\<close>, \<^verbatim>\<open>{coins: v}\<close>, status 400 with a message, or status
  500 after the handler caught an exception. The specification's \<open>InvalidInput\<close> is a
  status 400 with one of the "required" messages, its \<open>InsufficientFunds\<close> is status 400
  with the message \<^verbatim>\<open>insufficient funds\<close>. In \<open>Coins v\<close> the value \<open>v\<close> is the number
  as JavaScript holds it (\<^verbatim>\<open>JSON.stringify\<close> prints an infinity as \<^verbatim>\<open>null\<close>).
  \<open>Unmodelled\<close> marks the one situation the model does not follow: the handler read a
  truthy value of another kind where it needs a number (a string, timestamp or map, which
  JavaScript would coerce; for the current best also a number that is not \<open>Num\<close>). The
  server never stores such a value there.
\<close>

datatype response =
    Ok
  | Coins fsvalue
  | Status400 string
  | Status500 fault
  | Unmodelled

record register_req =
  reg_name :: "string option"
  reg_phone :: "string option"

record party_req =
  pr_phone :: "string option"
  pr_gameId :: "string option"
  pr_score :: "int option"
  pr_coins :: "int option"

record spend_req =
  sp_phone :: "string option"
  sp_amount :: "int option"
  sp_reason :: "string option"

text \<open>\<^verbatim>\<open>!x\<close>, and \<^verbatim>\<open>x || d\<close>, on a request field.\<close>

fun falsy_str :: "string option \<Rightarrow> bool" where
  "falsy_str None = True"
| "falsy_str (Some s) = (s = [])"

fun falsy_num :: "int option \<Rightarrow> bool" where
  "falsy_num None = True"
| "falsy_num (Some n) = (n = 0)"

fun str_or :: "string option \<Rightarrow> string \<Rightarrow> string" where
  "str_or None d = d"
| "str_or (Some s) d = (if s = [] then d else s)"

fun num_or :: "int option \<Rightarrow> int \<Rightarrow> int" where
  "num_or None d = d"
| "num_or (Some n) d = (if n = 0 then d else n)"

subsection \<open>Handlers\<close>

text \<open>
  \<^verbatim>\<open>/register\<close>: the raw phone is checked, then normalised; \<^verbatim>\<open>players.doc(phoneNorm)\<close>
  throws on the empty string, and the handler answers 500.
\<close>

definition register :: "nat \<Rightarrow> register_req \<Rightarrow> state \<Rightarrow> response \<times> state" where
  "register now req st =
     (if falsy_str (reg_phone req) then (Status400 ''phone required'', st)
      else
        let phoneNorm = normalizePhone (str_or (reg_phone req) []) in
        if phoneNorm = [] then (Status500 InvalidDocumentPath, st)
        else
          (Ok, st\<lparr>players := (players st)(phoneNorm \<mapsto>
                 set_merge now
                   [(''name'', Value (Str (str_or (reg_name req) []))),
                    (''phone'', Value (Str phoneNorm)),
                    (''lastSource'', Value (Str ''registration'')),
                    (''updatedAt'', ServerTimestamp)]
                   (players st phoneNorm))\<rparr>))"

text \<open>
  \<^verbatim>\<open>/partyResult\<close>. The current best is
  \<^verbatim>\<open>snap.exists && snap.get(bestPath) ? snap.get(bestPath) : 0\<close>: for a missing document
  \<^verbatim>\<open>snap.get\<close> is not called.
\<close>

definition bestPath :: "string \<Rightarrow> string" where
  "bestPath gameId = ''partyScores.'' @ gameId @ ''.bestScore''"

definition lastPath :: "string \<Rightarrow> string" where
  "lastPath gameId = ''partyScores.'' @ gameId @ ''.lastScore''"

definition currentBest :: "document option \<Rightarrow> string \<Rightarrow> fault + fsvalue" where
  "currentBest snap gameId =
     (case snap of
        None \<Rightarrow> Inr (Num 0)
      | Some d \<Rightarrow>
          (case snap_get d (bestPath gameId) of
             Inl f \<Rightarrow> Inl f
           | Inr v \<Rightarrow> Inr (if truthy v then (case v of Some x \<Rightarrow> x | None \<Rightarrow> Num 0) else Num 0)))"

definition partyResult :: "nat \<Rightarrow> party_req \<Rightarrow> state \<Rightarrow> response \<times> state" where
  "partyResult now req st =
     (if falsy_str (pr_phone req) \<or> falsy_str (pr_gameId req)
      then (Status400 ''phone and gameId required'', st)
      else
        let phoneNorm = normalizePhone (str_or (pr_phone req) []);
            gameId = str_or (pr_gameId req) [];
            score = num_or (pr_score req) 0;
            coins = num_or (pr_coins req) 0
        in
        if phoneNorm = [] then (Status500 InvalidDocumentPath, st)
        else
          (case currentBest (players st phoneNorm) gameId of
             Inl f \<Rightarrow> (Status500 f, st)
           | Inr (Num best) \<Rightarrow>
               (Ok, st\<lparr>players := (players st)(phoneNorm \<mapsto>
                      set_merge now
                        [(lastPath gameId, Value (Num score)),
                         (bestPath gameId, Value (Num (max best score))),
                         (''coins'', Increment coins),
                         (''lastSource'', Value (Str (''party:'' @ gameId))),
                         (''updatedAt'', ServerTimestamp)]
                        (players st phoneNorm)),
                    events := events st @
                      [\<lparr>ev_phone = phoneNorm, ev_source = ''party:'' @ gameId,
                        ev_score = Some score, ev_amount = coins, ev_createdAt = now\<rparr>]\<rparr>)
           | Inr _ \<Rightarrow> (Unmodelled, st)))"

text \<open>
  \<^verbatim>\<open>/spend\<close>. The balance is \<^verbatim>\<open>snap.exists && snap.get("coins") ? snap.get("coins") : 0\<close>;
  the transaction returns \<^verbatim>\<open>false\<close> without writing when \<^verbatim>\<open>balance < amount\<close>. A stored
  integer value outside the safe range is read as the nearest double.
\<close>

fun js_view :: "fsvalue \<Rightarrow> fsvalue" where
  "js_view (Long i) = Dbl (dbl_of_int i)"
| "js_view v = v"

definition balance :: "document option \<Rightarrow> fault + fsvalue" where
  "balance snap =
     (case snap of
        None \<Rightarrow> Inr (Num 0)
      | Some d \<Rightarrow>
          (case snap_get d ''coins'' of
             Inl f \<Rightarrow> Inl f
           | Inr v \<Rightarrow>
               Inr (if truthy v then (case v of Some x \<Rightarrow> js_view x | None \<Rightarrow> Num 0)
                    else Num 0)))"

fun js_less :: "fsvalue \<Rightarrow> int \<Rightarrow> bool option" where
  "js_less (Num b) a = Some (b < a)"
| "js_less (Dbl x) a = Some (dbl_less x a)"
| "js_less v a = None"

definition spend :: "nat \<Rightarrow> spend_req \<Rightarrow> state \<Rightarrow> response \<times> state" where
  "spend now req st =
     (if falsy_str (sp_phone req) \<or> falsy_num (sp_amount req)
      then (Status400 ''phone and amount required'', st)
      else
        let phoneNorm = normalizePhone (str_or (sp_phone req) []);
            amount = num_or (sp_amount req) 0;
            source = str_or (sp_reason req) ''spend''
        in
        if phoneNorm = [] then (Status500 InvalidDocumentPath, st)
        else
          (case balance (players st phoneNorm) of
             Inl f \<Rightarrow> (Status500 f, st)
           | Inr bal \<Rightarrow>
               (case js_less bal amount of
                  None \<Rightarrow> (Unmodelled, st)
                | Some True \<Rightarrow> (Status400 ''insufficient funds'', st)
                | Some False \<Rightarrow>
                    (case tx_update now
                            [(''coins'', Increment (- amount)),
                             (''lastSource'', Value (Str source)),
                             (''updatedAt'', ServerTimestamp)]
                            (players st phoneNorm) of
                       None \<Rightarrow> (Status500 NotFound, st)
                     | Some d' \<Rightarrow>
                         (Ok, st\<lparr>players := (players st)(phoneNorm \<mapsto> d'),
                              events := events st @
                                [\<lparr>ev_phone = phoneNorm, ev_source = source,
                                  ev_score = None, ev_amount = - amount,
                                  ev_createdAt = now\<rparr>]\<rparr>)))))"

text \<open>
  \<^verbatim>\<open>/coins\<close>: the query parameter is normalised first (an absent one is the empty string),
  and the normalised key is checked. The answer is \<^verbatim>\<open>snap.get("coins") || 0\<close>, or 0
  without a document: the value that \<^verbatim>\<open>/spend\<close> reads as the balance (\<^verbatim>\<open>v || 0\<close> and
  \<^verbatim>\<open>v ? v : 0\<close> agree).
\<close>

definition coins_query :: "string option \<Rightarrow> state \<Rightarrow> response \<times> state" where
  "coins_query phone st =
     (let phoneNorm = normalizePhone (case phone of None \<Rightarrow> [] | Some p \<Rightarrow> p) in
      if phoneNorm = [] then (Status400 ''phone required'', st)
      else
        (case balance (players st phoneNorm) of
           Inl f \<Rightarrow> (Status500 f, st)
         | Inr v \<Rightarrow> (Coins v, st)))"

subsection \<open>Histories\<close>

datatype request =
    Register register_req
  | PartyResult party_req
  | Spend spend_req

fun handle :: "nat \<times> request \<Rightarrow> state \<Rightarrow> response \<times> state" where
  "handle (now, Register r) st = register now r st"
| "handle (now, PartyResult r) st = partyResult now r st"
| "handle (now, Spend r) st = spend now r st"

text \<open>
  The store after a history of requests, each with the time of its commit. A request that
  is rejected or fails leaves the state as it is, so the histories cover every sequence of
  committed operations.
\<close>

fun run :: "(nat \<times> request) list \<Rightarrow> state \<Rightarrow> state" where
  "run [] st = st"
| "run (r # rs) st = run rs (snd (handle r st))"

text \<open>The sum of the amounts of the events recorded for a key.\<close>

fun event_sum :: "string \<Rightarrow> event list \<Rightarrow> int" where
  "event_sum k [] = 0"
| "event_sum k (e # es) = (if ev_phone e = k then ev_amount e else 0) + event_sum k es"

subsection \<open>Observations, invariants and a concrete history\<close>

text \<open>
  The reading of the specification's sentence "strip all characters except digits and a
  leading +": digits stay, and a plus sign stays only as the first character of the input.
\<close>

definition is_digit :: "char \<Rightarrow> bool" where
  "is_digit c = (c \<in> set ''0123456789'')"

definition strip_keep_leading_plus :: "string \<Rightarrow> string" where
  "strip_keep_leading_plus s =
     (case s of
        [] \<Rightarrow> []
      | c # cs \<Rightarrow> (if c = CHR ''+'' then c # filter is_digit cs else filter is_digit (c # cs)))"

text \<open>A top-level field of a player's document, \<open>None\<close> when there is no document.\<close>

definition field_of :: "document option \<Rightarrow> string \<Rightarrow> fsvalue option" where
  "field_of snap f = (case snap of None \<Rightarrow> None | Some d \<Rightarrow> d f)"

text \<open>No handler writes a top-level field \<^verbatim>\<open>partyScores\<close>.\<close>

definition scores_inv :: "state \<Rightarrow> bool" where
  "scores_inv st = (\<forall>k. field_of (players st k) ''partyScores'' = None)"

text \<open>
  An event log stays in the safe range when every amount is a safe integer and, after
  every event, the sum of the amounts recorded so far for the event's key is one.
\<close>

fun safe_from :: "event list \<Rightarrow> event list \<Rightarrow> bool" where
  "safe_from seen [] = True"
| "safe_from seen (e # es) =
     (safe (ev_amount e) \<and> safe (event_sum (ev_phone e) (seen @ [e]))
      \<and> safe_from (seen @ [e]) es)"

definition safe_log :: "event list \<Rightarrow> bool" where
  "safe_log es = safe_from [] es"

text \<open>
  What a document satisfies while the log stays in the safe range, for the sum \<open>bal\<close> of
  the player's events: \<^verbatim>\<open>coins\<close> is the integer \<open>bal\<close>, or is absent when \<open>bal\<close> is 0 (a
  player who only registered).
\<close>

definition doc_inv :: "int \<Rightarrow> document \<Rightarrow> bool" where
  "doc_inv bal d = (d ''coins'' = Some (Num bal) \<or> (d ''coins'' = None \<and> bal = 0))"

definition snap_inv :: "int \<Rightarrow> document option \<Rightarrow> bool" where
  "snap_inv bal snap = (case snap of None \<Rightarrow> bal = 0 | Some d \<Rightarrow> doc_inv bal d)"

definition ledger_inv :: "state \<Rightarrow> bool" where
  "ledger_inv st = (\<forall>k. snap_inv (event_sum k (events st)) (players st k))"

text \<open>
  The scenario of the specification: Ann registers with the phone \<^verbatim>\<open>555-0100\<close>, then is
  awarded 5 coins for a score of 10 and 2 coins for a score of 3 in the game \<^verbatim>\<open>run\<close>.
\<close>

definition ann_register :: register_req where
  "ann_register = \<lparr>reg_name = Some ''Ann'', reg_phone = Some ''555-0100''\<rparr>"

definition run_award :: "int \<Rightarrow> int \<Rightarrow> party_req" where
  "run_award score coins =
     \<lparr>pr_phone = Some ''5550100'', pr_gameId = Some ''run'',
      pr_score = Some score, pr_coins = Some coins\<rparr>"

definition ann_spend :: "int \<Rightarrow> spend_req" where
  "ann_spend amount = \<lparr>sp_phone = Some ''5550100'', sp_amount = Some amount, sp_reason = None\<rparr>"

definition scenario :: "(nat \<times> request) list" where
  "scenario =
     [(1, Register ann_register), (2, PartyResult (run_award 10 5)),
      (3, PartyResult (run_award 3 2))]"

text \<open>
  Two histories that leave the safe range: an award of \<open>2^53\<close> coins followed by an award
  of 1 coin, and an award of \<open>2^53 - 1\<close> coins followed by an award of 2 coins.
\<close>

definition big_awards :: "(nat \<times> request) list" where
  "big_awards =
     [(1, PartyResult (run_award 0 9007199254740992)), (2, PartyResult (run_award 0 1))]"

definition long_awards :: "(nat \<times> request) list" where
  "long_awards =
     [(1, PartyResult (run_award 0 9007199254740991)), (2, PartyResult (run_award 0 2))]"

section \<open>Properties\<close>

subsection \<open>Key normaliser\<close>

lemma normalizePhone_filter: "normalizePhone s = filter kept s"
  by (induction s) simp_all

text \<open>
  Claim C4, as the specification words it, fails: the normaliser keeps every plus sign,
  not only a leading one. The input \<^verbatim>\<open>1+2\<close> comes back unchanged, where stripping all
  but digits and a leading plus sign gives \<^verbatim>\<open>12\<close>.
\<close>

theorem normalizePhone_keeps_inner_plus:
  "normalizePhone ''1+2'' = ''1+2'' \<and> strip_keep_leading_plus ''1+2'' = ''12''
   \<and> normalizePhone ''1+2'' \<noteq> strip_keep_leading_plus ''1+2''"
  by (simp add: kept_def strip_keep_leading_plus_def is_digit_def)

text \<open>
  Claim C4, amended: for every raw phone string the normaliser returns the characters of
  its input that are digits or plus signs, in their order, and drops all others; the two
  inputs of the specification normalise to \<^verbatim>\<open>+15551234567\<close> and \<^verbatim>\<open>15551234567\<close>.
\<close>

theorem normalizePhone_keeps_digits_and_plus:
  "normalizePhone s = filter (\<lambda>c. c \<in> set ''0123456789+'') s
   \<and> normalizePhone ''+1 (555) 123-4567'' = ''+15551234567''
   \<and> normalizePhone ''15551234567'' = ''15551234567''"
proof -
  have "kept = (\<lambda>c. c \<in> set ''0123456789+'')"
    by (auto simp: kept_def fun_eq_iff)
  then have "normalizePhone s = filter (\<lambda>c. c \<in> set ''0123456789+'') s"
    by (simp add: normalizePhone_filter)
  moreover have "normalizePhone ''+1 (555) 123-4567'' = ''+15551234567''"
    by (simp add: kept_def)
  moreover have "normalizePhone ''15551234567'' = ''15551234567''"
    by (simp add: kept_def)
  ultimately show ?thesis by simp
qed

theorem normalizePhone_keeps_digits_and_plus_witness:
  "normalizePhone ''+44 (0)20-7946 0958 ext+3'' = ''+4402079460958+3''"
  using normalizePhone_keeps_digits_and_plus [of "''+44 (0)20-7946 0958 ext+3''"]
  by simp

text \<open>
  Claim C9: normalising the result of a normalisation returns it unchanged, so a canonical
  key is a fixed point.
\<close>

theorem normalizePhone_idempotent:
  "normalizePhone (normalizePhone s) = normalizePhone s"
  by (simp add: normalizePhone_filter)

theorem normalizePhone_idempotent_witness:
  "normalizePhone (normalizePhone ''+1 (555) 123-4567'') = ''+15551234567''"
  using normalizePhone_idempotent [of "''+1 (555) 123-4567''"]
  by (simp add: kept_def)

subsection \<open>Field paths and reads\<close>

lemma split_dots_ne: "split_dots s \<noteq> []"
  by (induction s) (auto split: list.splits)

lemma snap_get_coins: "snap_get d ''coins'' = Inr (d ''coins'')"
  by (simp add: snap_get_def valid_field_path_def)

lemma split_dots_prefix:
  "CHR ''.'' \<notin> set p \<Longrightarrow> split_dots (p @ CHR ''.'' # r) = p # split_dots r"
  by (induction p) (auto split: list.splits)

lemma split_bestPath:
  "split_dots (bestPath g) = ''partyScores'' # split_dots (g @ ''.bestScore'')"
  using split_dots_prefix [of "''partyScores''" "g @ ''.bestScore''"]
  by (simp add: bestPath_def)

lemma proto_field_absent:
  "d c = None \<Longrightarrow> rest \<noteq> [] \<Longrightarrow> proto_field d (c # rest) = None"
  by (cases rest) simp_all

text \<open>
  The award reads the current best along the path \<^verbatim>\<open>partyScores\<close>, game, \<^verbatim>\<open>bestScore\<close>:
  in a document without a top-level field \<^verbatim>\<open>partyScores\<close> it finds nothing.
\<close>

lemma currentBest_absent:
  "d ''partyScores'' = None \<Longrightarrow>
   currentBest (Some d) g = Inr (Num 0) \<or> currentBest (Some d) g = Inl InvalidFieldPath"
  by (simp add: currentBest_def snap_get_def split_bestPath proto_field_absent split_dots_ne)

lemma currentBest_None: "currentBest None g = Inr (Num 0)"
  by (simp add: currentBest_def)

lemma balance_None: "balance None = Inr (Num 0)"
  by (simp add: balance_def)

lemma balance_absent: "d ''coins'' = None \<Longrightarrow> balance (Some d) = Inr (Num 0)"
  by (simp add: balance_def snap_get_coins)

lemma balance_Num: "d ''coins'' = Some (Num n) \<Longrightarrow> balance (Some d) = Inr (Num n)"
  by (simp add: balance_def snap_get_coins)

lemma bestPath_neq [simp]:
  "bestPath g \<noteq> ''coins''" "bestPath g \<noteq> ''name''" "bestPath g \<noteq> ''phone''"
  "bestPath g \<noteq> ''lastSource''" "bestPath g \<noteq> ''updatedAt''" "bestPath g \<noteq> ''partyScores''"
  "''coins'' \<noteq> bestPath g" "''name'' \<noteq> bestPath g" "''phone'' \<noteq> bestPath g"
  "''lastSource'' \<noteq> bestPath g" "''updatedAt'' \<noteq> bestPath g" "''partyScores'' \<noteq> bestPath g"
  by (simp_all add: bestPath_def)

lemma lastPath_neq [simp]:
  "lastPath g \<noteq> ''coins''" "lastPath g \<noteq> ''name''" "lastPath g \<noteq> ''phone''"
  "lastPath g \<noteq> ''lastSource''" "lastPath g \<noteq> ''updatedAt''" "lastPath g \<noteq> ''partyScores''"
  "''coins'' \<noteq> lastPath g" "''name'' \<noteq> lastPath g" "''phone'' \<noteq> lastPath g"
  "''lastSource'' \<noteq> lastPath g" "''updatedAt'' \<noteq> lastPath g" "''partyScores'' \<noteq> lastPath g"
  by (simp_all add: lastPath_def)

lemma bestPath_lastPath_neq [simp]: "bestPath g \<noteq> lastPath g'" "lastPath g' \<noteq> bestPath g"
proof -
  have "g @ ''.bestScore'' \<noteq> g' @ ''.lastScore''"
  proof
    assume "g @ ''.bestScore'' = g' @ ''.lastScore''"
    then have "g = g' \<and> ''.bestScore'' = ''.lastScore''"
      by (subst (asm) append_eq_append_conv) simp_all
    then show False by simp
  qed
  then show "bestPath g \<noteq> lastPath g'" "lastPath g' \<noteq> bestPath g"
    by (auto simp: bestPath_def lastPath_def)
qed

lemma set_merge_award_fields:
  "set_merge now
     [(lastPath g, Value v1), (bestPath g, Value v2), (''coins'', Increment c),
      (''lastSource'', Value v3), (''updatedAt'', ServerTimestamp)] snap (lastPath g) = Some v1"
  "set_merge now
     [(lastPath g, Value v1), (bestPath g, Value v2), (''coins'', Increment c),
      (''lastSource'', Value v3), (''updatedAt'', ServerTimestamp)] snap (bestPath g) = Some v2"
  by (simp_all add: set_merge_def write_field_def)

subsection \<open>Numbers in the safe range\<close>

lemma ulp_small: "m < 2 ^ 53 \<Longrightarrow> ulp m = 1"
  by (simp add: ulp.simps)

lemma round53_safe: "safe n \<Longrightarrow> round53 n = n"
  by (auto simp: safe_def round53_def round_mag_def ulp_small Let_def)

lemma clamp64_safe: "safe n \<Longrightarrow> clamp64 n = n"
  by (simp add: safe_def clamp64_def)

lemma add_to_int_exact: "safe n \<Longrightarrow> safe (m + n) \<Longrightarrow> add_to_int m n = Num (m + n)"
  by (simp add: add_to_int_def int_value_def clamp64_safe)

subsection \<open>What the handlers do to the state\<close>

lemma partyResult_shape:
  "snd (partyResult now req st) = st
   \<or> (\<exists>best. snd (partyResult now req st) =
         st\<lparr>players := (players st)(normalizePhone (str_or (pr_phone req) []) \<mapsto>
               set_merge now
                 [(lastPath (str_or (pr_gameId req) []), Value (Num (num_or (pr_score req) 0))),
                  (bestPath (str_or (pr_gameId req) []),
                   Value (Num (max best (num_or (pr_score req) 0)))),
                  (''coins'', Increment (num_or (pr_coins req) 0)),
                  (''lastSource'', Value (Str (''party:'' @ str_or (pr_gameId req) []))),
                  (''updatedAt'', ServerTimestamp)]
                 (players st (normalizePhone (str_or (pr_phone req) [])))),
             events := events st @
               [\<lparr>ev_phone = normalizePhone (str_or (pr_phone req) []),
                 ev_source = ''party:'' @ str_or (pr_gameId req) [],
                 ev_score = Some (num_or (pr_score req) 0),
                 ev_amount = num_or (pr_coins req) 0, ev_createdAt = now\<rparr>]\<rparr>)"
  by (auto simp: partyResult_def Let_def split: sum.split fsvalue.split)

lemma spend_shape:
  "snd (spend now req st) = st
   \<or> (\<exists>d'. tx_update now
               [(''coins'', Increment (- num_or (sp_amount req) 0)),
                (''lastSource'', Value (Str (str_or (sp_reason req) ''spend''))),
                (''updatedAt'', ServerTimestamp)]
               (players st (normalizePhone (str_or (sp_phone req) []))) = Some d'
         \<and> snd (spend now req st) =
             st\<lparr>players := (players st)(normalizePhone (str_or (sp_phone req) []) \<mapsto> d'),
               events := events st @
                 [\<lparr>ev_phone = normalizePhone (str_or (sp_phone req) []),
                   ev_source = str_or (sp_reason req) ''spend'', ev_score = None,
                   ev_amount = - num_or (sp_amount req) 0, ev_createdAt = now\<rparr>]\<rparr>)"
  by (simp add: spend_def Let_def split: sum.split option.split bool.split)

subsection \<open>What no handler writes\<close>

lemma fold_write_field_other:
  "k \<notin> fst ` set data \<Longrightarrow> fold (write_field now) data d k = d k"
  by (induction data arbitrary: d) (auto simp: write_field_def)

lemma scores_inv_empty: "scores_inv empty_state"
  by (simp add: scores_inv_def field_of_def empty_state_def)

lemma scores_inv_put:
  assumes "scores_inv st" and "d' ''partyScores'' = None"
  shows "scores_inv (st\<lparr>players := (players st)(key \<mapsto> d'), events := es\<rparr>)"
    and "scores_inv (st\<lparr>players := (players st)(key \<mapsto> d')\<rparr>)"
  using assms by (simp_all add: scores_inv_def field_of_def)

lemma set_merge_scores:
  assumes "field_of snap ''partyScores'' = None" and "''partyScores'' \<notin> fst ` set data"
  shows "set_merge now data snap ''partyScores'' = None"
  using assms by (cases snap) (simp_all add: set_merge_def fold_write_field_other field_of_def)

lemma tx_update_scores:
  assumes "field_of snap ''partyScores'' = None" and "''partyScores'' \<notin> fst ` set data"
    and "tx_update now data snap = Some d'"
  shows "d' ''partyScores'' = None"
  using assms by (cases snap) (auto simp: tx_update_def fold_write_field_other field_of_def)

lemma scores_inv_register:
  assumes "scores_inv st"
  shows "scores_inv (snd (register now req st))"
proof -
  have "field_of (players st k) ''partyScores'' = None" for k
    using assms by (simp add: scores_inv_def)
  then show ?thesis
    using assms by (simp add: register_def Let_def scores_inv_put set_merge_scores)
qed

lemma scores_inv_partyResult:
  assumes "scores_inv st"
  shows "scores_inv (snd (partyResult now req st))"
proof -
  have old: "field_of (players st k) ''partyScores'' = None" for k
    using assms by (simp add: scores_inv_def)
  from partyResult_shape [of now req st] show ?thesis
  proof (elim disjE exE)
    assume "snd (partyResult now req st) = st"
    then show ?thesis using assms by simp
  next
    fix best
    assume "snd (partyResult now req st) =
         st\<lparr>players := (players st)(normalizePhone (str_or (pr_phone req) []) \<mapsto>
               set_merge now
                 [(lastPath (str_or (pr_gameId req) []), Value (Num (num_or (pr_score req) 0))),
                  (bestPath (str_or (pr_gameId req) []),
                   Value (Num (max best (num_or (pr_score req) 0)))),
                  (''coins'', Increment (num_or (pr_coins req) 0)),
                  (''lastSource'', Value (Str (''party:'' @ str_or (pr_gameId req) []))),
                  (''updatedAt'', ServerTimestamp)]
                 (players st (normalizePhone (str_or (pr_phone req) [])))),
             events := events st @
               [\<lparr>ev_phone = normalizePhone (str_or (pr_phone req) []),
                 ev_source = ''party:'' @ str_or (pr_gameId req) [],
                 ev_score = Some (num_or (pr_score req) 0),
                 ev_amount = num_or (pr_coins req) 0, ev_createdAt = now\<rparr>]\<rparr>"
    then show ?thesis
      using assms old by (simp add: scores_inv_put set_merge_scores)
  qed
qed

lemma scores_inv_spend:
  assumes "scores_inv st"
  shows "scores_inv (snd (spend now req st))"
proof -
  have old: "field_of (players st k) ''partyScores'' = None" for k
    using assms by (simp add: scores_inv_def)
  from spend_shape [of now req st] show ?thesis
  proof (elim disjE exE conjE)
    assume "snd (spend now req st) = st"
    then show ?thesis using assms by simp
  next
    fix d'
    assume upd: "tx_update now
               [(''coins'', Increment (- num_or (sp_amount req) 0)),
                (''lastSource'', Value (Str (str_or (sp_reason req) ''spend''))),
                (''updatedAt'', ServerTimestamp)]
               (players st (normalizePhone (str_or (sp_phone req) []))) = Some d'"
      and res: "snd (spend now req st) =
             st\<lparr>players := (players st)(normalizePhone (str_or (sp_phone req) []) \<mapsto> d'),
               events := events st @
                 [\<lparr>ev_phone = normalizePhone (str_or (sp_phone req) []),
                   ev_source = str_or (sp_reason req) ''spend'', ev_score = None,
                   ev_amount = - num_or (sp_amount req) 0, ev_createdAt = now\<rparr>]\<rparr>"
    have "d' ''partyScores'' = None"
      by (rule tx_update_scores [OF old _ upd]) simp
    then show ?thesis
      using assms res by (simp add: scores_inv_put)
  qed
qed

lemma scores_inv_handle: "scores_inv st \<Longrightarrow> scores_inv (snd (handle r st))"
proof (cases r)
  case (Pair now q)
  then show "scores_inv st \<Longrightarrow> scores_inv (snd (handle r st))"
    by (cases q) (simp_all add: scores_inv_register scores_inv_partyResult scores_inv_spend)
qed

lemma scores_inv_run: "scores_inv st \<Longrightarrow> scores_inv (run rs st)"
  by (induction rs arbitrary: st) (simp_all add: scores_inv_handle)

lemma scores_inv_currentBest:
  assumes "scores_inv st" and "currentBest (players st k) g = Inr v"
  shows "v = Num 0"
proof (cases "players st k")
  case None
  then show ?thesis using assms(2) by (simp add: currentBest_None)
next
  case (Some d)
  then have "d ''partyScores'' = None"
    using assms(1) by (auto simp: scores_inv_def field_of_def dest: spec [of _ k])
  with currentBest_absent [of d g] show ?thesis
    using assms(2) Some by auto
qed

subsection \<open>The ledger invariant\<close>

lemma event_sum_append:
  "event_sum k (es @ [e]) = event_sum k es + (if ev_phone e = k then ev_amount e else 0)"
  by (induction es) simp_all

lemma safe_from_snoc:
  "safe_from seen (es @ [e]) =
     (safe_from seen es \<and> safe (ev_amount e)
      \<and> safe (event_sum (ev_phone e) (seen @ es @ [e])))"
  by (induction es arbitrary: seen) auto

lemma safe_log_snoc:
  "safe_log (es @ [e]) =
     (safe_log es \<and> safe (ev_amount e) \<and> safe (event_sum (ev_phone e) (es @ [e])))"
  using safe_from_snoc [of "[]" es e] by (simp add: safe_log_def)

lemma safe_log_prefix: "safe_log (es @ ys) \<Longrightarrow> safe_log es"
proof (induction ys rule: rev_induct)
  case Nil
  then show ?case by simp
next
  case (snoc e ys)
  from snoc.prems have "safe_log ((es @ ys) @ [e])" by simp
  then have "safe_log (es @ ys)" by (simp only: safe_log_snoc)
  then show ?case by (rule snoc.IH)
qed

lemma snap_inv_balance: "snap_inv bal snap \<Longrightarrow> balance snap = Inr (Num bal)"
  by (cases snap)
     (auto simp: snap_inv_def doc_inv_def balance_None balance_absent balance_Num)

lemma ledger_inv_balance:
  "ledger_inv st \<Longrightarrow> balance (players st k) = Inr (Num (event_sum k (events st)))"
  by (simp add: ledger_inv_def snap_inv_balance)

lemma ledger_inv_empty: "ledger_inv empty_state"
  by (simp add: ledger_inv_def snap_inv_def empty_state_def)

lemma ledger_inv_put:
  assumes "ledger_inv st" and "doc_inv (event_sum key (events st)) d'"
  shows "ledger_inv (st\<lparr>players := (players st)(key \<mapsto> d')\<rparr>)"
  using assms by (simp add: ledger_inv_def snap_inv_def)

lemma ledger_inv_put_event:
  assumes "ledger_inv st" and "ev_phone e = key"
    and "doc_inv (event_sum key (events st) + ev_amount e) d'"
  shows "ledger_inv (st\<lparr>players := (players st)(key \<mapsto> d'), events := events st @ [e]\<rparr>)"
  using assms by (auto simp: ledger_inv_def event_sum_append) (simp add: snap_inv_def)

lemma register_doc_inv:
  "snap_inv bal snap \<Longrightarrow>
   doc_inv bal (set_merge now
     [(''name'', Value v1), (''phone'', Value v2), (''lastSource'', Value v3),
      (''updatedAt'', ServerTimestamp)] snap)"
  by (cases snap) (auto simp: snap_inv_def doc_inv_def set_merge_def write_field_def)

lemma award_doc_inv:
  "snap_inv bal snap \<Longrightarrow> safe c \<Longrightarrow> safe (bal + c) \<Longrightarrow>
   doc_inv (bal + c) (set_merge now
     [(lastPath g, Value v1), (bestPath g, Value v2), (''coins'', Increment c),
      (''lastSource'', Value v3), (''updatedAt'', ServerTimestamp)] snap)"
  by (cases snap)
     (auto simp: snap_inv_def doc_inv_def set_merge_def write_field_def add_to_int_exact)

lemma spend_doc_inv:
  "snap_inv bal snap \<Longrightarrow> safe c \<Longrightarrow> safe (bal + c) \<Longrightarrow>
   tx_update now [(''coins'', Increment c), (''lastSource'', Value v3),
      (''updatedAt'', ServerTimestamp)] snap = Some d' \<Longrightarrow>
   doc_inv (bal + c) d'"
  by (cases snap)
     (auto simp: snap_inv_def doc_inv_def tx_update_def write_field_def add_to_int_exact)

lemma ledger_inv_register:
  assumes "ledger_inv st"
  shows "ledger_inv (snd (register now req st))"
proof -
  have "snap_inv (event_sum k (events st)) (players st k)" for k
    using assms by (simp add: ledger_inv_def)
  then show ?thesis
    using assms by (simp add: register_def Let_def ledger_inv_put register_doc_inv)
qed

lemma ledger_inv_partyResult:
  assumes "ledger_inv st" and "safe_log (events (snd (partyResult now req st)))"
  shows "ledger_inv (snd (partyResult now req st))"
proof -
  have old: "snap_inv (event_sum k (events st)) (players st k)" for k
    using assms(1) by (simp add: ledger_inv_def)
  from partyResult_shape [of now req st] show ?thesis
  proof (elim disjE exE)
    assume "snd (partyResult now req st) = st"
    then show ?thesis using assms(1) by simp
  next
    fix best
    assume res: "snd (partyResult now req st) =
         st\<lparr>players := (players st)(normalizePhone (str_or (pr_phone req) []) \<mapsto>
               set_merge now
                 [(lastPath (str_or (pr_gameId req) []), Value (Num (num_or (pr_score req) 0))),
                  (bestPath (str_or (pr_gameId req) []),
                   Value (Num (max best (num_or (pr_score req) 0)))),
                  (''coins'', Increment (num_or (pr_coins req) 0)),
                  (''lastSource'', Value (Str (''party:'' @ str_or (pr_gameId req) []))),
                  (''updatedAt'', ServerTimestamp)]
                 (players st (normalizePhone (str_or (pr_phone req) [])))),
             events := events st @
               [\<lparr>ev_phone = normalizePhone (str_or (pr_phone req) []),
                 ev_source = ''party:'' @ str_or (pr_gameId req) [],
                 ev_score = Some (num_or (pr_score req) 0),
                 ev_amount = num_or (pr_coins req) 0, ev_createdAt = now\<rparr>]\<rparr>"
    with assms(2) have s: "safe (num_or (pr_coins req) 0)"
      "safe (event_sum (normalizePhone (str_or (pr_phone req) [])) (events st)
             + num_or (pr_coins req) 0)"
      by (simp_all add: safe_log_snoc event_sum_append)
    show ?thesis
      unfolding res
      by (rule ledger_inv_put_event [OF assms(1)]) (simp_all add: award_doc_inv old s)
  qed
qed

lemma ledger_inv_spend:
  assumes "ledger_inv st" and "safe_log (events (snd (spend now req st)))"
  shows "ledger_inv (snd (spend now req st))"
proof -
  have old: "snap_inv (event_sum k (events st)) (players st k)" for k
    using assms(1) by (simp add: ledger_inv_def)
  from spend_shape [of now req st] show ?thesis
  proof (elim disjE exE conjE)
    assume "snd (spend now req st) = st"
    then show ?thesis using assms(1) by simp
  next
    fix d'
    assume upd: "tx_update now
               [(''coins'', Increment (- num_or (sp_amount req) 0)),
                (''lastSource'', Value (Str (str_or (sp_reason req) ''spend''))),
                (''updatedAt'', ServerTimestamp)]
               (players st (normalizePhone (str_or (sp_phone req) []))) = Some d'"
      and res: "snd (spend now req st) =
             st\<lparr>players := (players st)(normalizePhone (str_or (sp_phone req) []) \<mapsto> d'),
               events := events st @
                 [\<lparr>ev_phone = normalizePhone (str_or (sp_phone req) []),
                   ev_source = str_or (sp_reason req) ''spend'', ev_score = None,
                   ev_amount = - num_or (sp_amount req) 0, ev_createdAt = now\<rparr>]\<rparr>"
    from assms(2) res have s: "safe (- num_or (sp_amount req) 0)"
      "safe (event_sum (normalizePhone (str_or (sp_phone req) [])) (events st)
             + - num_or (sp_amount req) 0)"
      by (simp_all add: safe_log_snoc event_sum_append)
    have "doc_inv (event_sum (normalizePhone (str_or (sp_phone req) [])) (events st)
             + - num_or (sp_amount req) 0) d'"
      using old s upd by (rule spend_doc_inv)
    then show ?thesis
      unfolding res
      by (intro ledger_inv_put_event [OF assms(1)]) simp_all
  qed
qed

lemma ledger_inv_handle:
  "ledger_inv st \<Longrightarrow> safe_log (events (snd (handle r st))) \<Longrightarrow> ledger_inv (snd (handle r st))"
proof (cases r)
  case (Pair now q)
  then show "ledger_inv st \<Longrightarrow> safe_log (events (snd (handle r st)))
      \<Longrightarrow> ledger_inv (snd (handle r st))"
    by (cases q) (simp_all add: ledger_inv_register ledger_inv_partyResult ledger_inv_spend)
qed

lemma handle_events:
  "events (snd (handle r st)) = events st
   \<or> (\<exists>e. events (snd (handle r st)) = events st @ [e])"
proof (cases r)
  case (Pair now q)
  show ?thesis
  proof (cases q)
    case (Register x)
    then show ?thesis using Pair by (simp add: register_def Let_def)
  next
    case (PartyResult x)
    from partyResult_shape [of now x st] show ?thesis
      using Pair PartyResult by auto
  next
    case (Spend x)
    from spend_shape [of now x st] show ?thesis
      using Pair Spend by auto
  qed
qed

lemma run_events: "\<exists>ys. events (run rs st) = events st @ ys"
proof (induction rs arbitrary: st)
  case Nil
  then show ?case by simp
next
  case (Cons r rs)
  from Cons.IH [of "snd (handle r st)"] obtain ys
    where "events (run (r # rs) st) = events (snd (handle r st)) @ ys" by auto
  with handle_events [of r st] show ?case by auto
qed

lemma run_snoc: "run (rs @ [r]) st = snd (handle r (run rs st))"
  by (induction rs arbitrary: st) simp_all

lemma ledger_inv_run:
  "ledger_inv st \<Longrightarrow> safe_log (events (run rs st)) \<Longrightarrow> ledger_inv (run rs st)"
proof (induction rs arbitrary: st)
  case Nil
  then show ?case by simp
next
  case (Cons r rs)
  from run_events [of rs "snd (handle r st)"] obtain ys
    where "events (run rs (snd (handle r st))) = events (snd (handle r st)) @ ys" by auto
  with Cons.prems(2) have "safe_log (events (snd (handle r st)))"
    by (auto dest: safe_log_prefix)
  with Cons.prems(1) have "ledger_inv (snd (handle r st))"
    by (rule ledger_inv_handle)
  with Cons.IH [of "snd (handle r st)"] Cons.prems(2) show ?case by simp
qed

subsection \<open>The scenario, evaluated\<close>

lemmas eval_defs =
  scenario_def ann_register_def run_award_def ann_spend_def empty_state_def
  register_def partyResult_def spend_def coins_query_def Let_def kept_def
  set_merge_def tx_update_def write_field_def currentBest_def balance_def
  snap_get_def valid_field_path_def bestPath_def lastPath_def field_of_def
  add_to_int_def int_value_def safe_def clamp64_def

lemmas double_defs =
  big_awards_def long_awards_def dbl_of_int_def round53_def round_mag_def ulp.simps

lemma scenario_coins:
  "balance (players (run scenario empty_state) ''5550100'') = Inr (Num 7)"
  by (simp add: eval_defs)

lemma scenario_events: "map ev_amount (events (run scenario empty_state)) = [5, 2]"
  by (simp add: eval_defs)

lemma scenario_last:
  "field_of (players (run scenario empty_state) ''5550100'') (lastPath ''run'') = Some (Num 3)"
  by (simp add: eval_defs)

lemma scenario_best:
  "field_of (players (run scenario empty_state) ''5550100'') (bestPath ''run'') = Some (Num 3)"
  by (simp add: eval_defs)

subsection \<open>Spend\<close>




text \<open>
  Claim C3, as stated, fails for a negative amount: \<^verbatim>\<open>!amount\<close> is false for \<open>- 5\<close>, the
  balance 7 is not below it, and the spend commits: the balance grows to 12 and an event
  with the amount \<open>+5\<close> is appended.
\<close>

theorem spend_accepts_negative_amount:
  "fst (spend 4 (ann_spend (- 5)) (run scenario empty_state)) = Ok
   \<and> balance (players (run scenario empty_state) ''5550100'') = Inr (Num 7)
   \<and> balance (players (snd (spend 4 (ann_spend (- 5)) (run scenario empty_state))) ''5550100'')
       = Inr (Num 12)
   \<and> map ev_amount (events (snd (spend 4 (ann_spend (- 5)) (run scenario empty_state))))
       = [5, 2, 5]"
  by (simp add: eval_defs)

text \<open>
  Claim C3, amended: a spend request whose amount is missing or zero is rejected with
  \<^verbatim>\<open>phone and amount required\<close> (status 400), and the state, balances and event log, is
  unchanged.
\<close>

theorem spend_rejects_missing_or_zero_amount:
  assumes "sp_amount req = None \<or> sp_amount req = Some 0"
  shows "spend now req st = (Status400 ''phone and amount required'', st)"
  using assms by (auto simp: spend_def)

theorem spend_rejects_missing_or_zero_amount_witness:
  "spend 4 (ann_spend 0) (run scenario empty_state)
     = (Status400 ''phone and amount required'', run scenario empty_state)"
  using spend_rejects_missing_or_zero_amount [of "ann_spend 0" 4 "run scenario empty_state"]
  by (simp add: ann_spend_def)

subsection \<open>Balance and event log\<close>

text \<open>
  Claim C2, as stated, fails beyond the safe range. The award of \<open>2^53\<close> coins is sent as
  a double, the award of 1 coin is added to it as a double, and the sum rounds back to
  \<open>2^53\<close>: the balance is \<open>2^53\<close> while the two committed events sum to \<open>2^53 + 1\<close>.
\<close>

theorem balance_rounds_beyond_safe_range:
  "map ev_amount (events (run big_awards empty_state)) = [9007199254740992, 1]
   \<and> event_sum ''5550100'' (events (run big_awards empty_state)) = 9007199254740993
   \<and> balance (players (run big_awards empty_state) ''5550100'')
       = Inr (Dbl (Fin 9007199254740992))"
  by (simp add: eval_defs double_defs)

text \<open>
  With integer values the store's sum is exact up to 64 bits, but the balance the
  handlers read is the nearest double: after awards of \<open>2^53 - 1\<close> and 2 coins the field
  holds \<open>2^53 + 1\<close> and reads as \<open>2^53\<close>.
\<close>

lemma balance_read_rounds_long:
  "field_of (players (run long_awards empty_state) ''5550100'') ''coins''
     = Some (Long 9007199254740993)
   \<and> balance (players (run long_awards empty_state) ''5550100'')
       = Inr (Dbl (Fin 9007199254740992))"
  by (simp add: eval_defs double_defs)

text \<open>
  Claim C2, amended: take any history of register, award and spend requests from the
  empty store, followed by one more request, whose event log stays in the safe range
  (every committed amount, and every running sum of a key's amounts, of magnitude below
  \<open>2^53\<close>). The balance read for a key after the history is the sum of the amounts of the
  events recorded for that key; and the further request either leaves the event log and
  every balance as they are, or appends exactly one event, changes the balance of that
  event's key by the event's amount and changes no other balance.
\<close>

theorem balance_is_event_sum:
  assumes "safe_log (events (run (rs @ [r]) empty_state))"
  shows "balance (players (run rs empty_state) k)
           = Inr (Num (event_sum k (events (run rs empty_state))))
       \<and> (let st = run rs empty_state; st' = run (rs @ [r]) empty_state in
            (events st' = events st
             \<and> (\<forall>j. balance (players st' j) = balance (players st j)))
          \<or> (\<exists>e. events st' = events st @ [e] \<and>
                (\<forall>j. \<exists>b. balance (players st j) = Inr (Num b) \<and>
                      balance (players st' j) =
                        Inr (Num (b + (if j = ev_phone e then ev_amount e else 0))))))"
proof -
  define st where "st = run rs empty_state"
  define st' where "st' = run (rs @ [r]) empty_state"
  have step: "st' = snd (handle r st)"
    by (simp add: st_def st'_def run_snoc)
  have safe': "safe_log (events st')"
    using assms by (simp add: st'_def)
  from handle_events [of r st] have "\<exists>ys. events st' = events st @ ys"
    by (auto simp: step)
  with safe' have safe: "safe_log (events st)"
    by (auto dest: safe_log_prefix)
  have inv: "ledger_inv st"
    unfolding st_def using ledger_inv_empty safe [unfolded st_def] by (rule ledger_inv_run)
  have inv': "ledger_inv st'"
    unfolding step using inv safe' [unfolded step] by (rule ledger_inv_handle)
  have bal: "balance (players st j) = Inr (Num (event_sum j (events st)))" for j
    using inv by (rule ledger_inv_balance)
  have bal': "balance (players st' j) = Inr (Num (event_sum j (events st')))" for j
    using inv' by (rule ledger_inv_balance)
  from handle_events [of r st]
  have "(events st' = events st \<and> (\<forall>j. balance (players st' j) = balance (players st j)))
      \<or> (\<exists>e. events st' = events st @ [e] \<and>
            (\<forall>j. \<exists>b. balance (players st j) = Inr (Num b) \<and>
                  balance (players st' j) =
                    Inr (Num (b + (if j = ev_phone e then ev_amount e else 0)))))"
  proof
    assume "events (snd (handle r st)) = events st"
    then have "events st' = events st" by (simp add: step)
    then show ?thesis by (simp add: bal bal')
  next
    assume "\<exists>e. events (snd (handle r st)) = events st @ [e]"
    then obtain e where e: "events st' = events st @ [e]" by (auto simp: step)
    have "\<forall>j. \<exists>b. balance (players st j) = Inr (Num b) \<and>
                  balance (players st' j) =
                    Inr (Num (b + (if j = ev_phone e then ev_amount e else 0)))"
      by (auto simp: bal bal' e event_sum_append)
    with e show ?thesis by blast
  qed
  then show ?thesis
    using bal [of k] by (simp add: st_def st'_def Let_def)
qed

theorem balance_is_event_sum_witness:
  "balance (players (run scenario empty_state) ''5550100'') = Inr (Num 7)
   \<and> map ev_amount (events (run scenario empty_state)) = [5, 2]
   \<and> map ev_amount (events (run (scenario @ [(4, Spend (ann_spend 7))]) empty_state))
       = [5, 2, - 7]
   \<and> balance (players (run (scenario @ [(4, Spend (ann_spend 7))]) empty_state) ''5550100'')
       = Inr (Num 0)"
proof -
  have s: "safe_log (events (run (scenario @ [(4, Spend (ann_spend 7))]) empty_state))"
    by (simp add: eval_defs safe_log_def)
  have e: "map ev_amount (events (run (scenario @ [(4, Spend (ann_spend 7))]) empty_state))
             = [5, 2, - 7]"
    by (simp add: eval_defs)
  have b: "balance (players (run (scenario @ [(4, Spend (ann_spend 7))]) empty_state)
             ''5550100'') = Inr (Num 0)"
    by (simp add: eval_defs)
  from balance_is_event_sum [OF s, of "''5550100''"] show ?thesis
    by (simp add: scenario_events scenario_coins e b)
qed

subsection \<open>Awards and the best score\<close>

lemma partyResult_Ok_fields:
  assumes "partyResult now req st = (Ok, st')"
  shows "\<exists>best.
           currentBest (players st (normalizePhone (str_or (pr_phone req) [])))
             (str_or (pr_gameId req) []) = Inr (Num best)
         \<and> field_of (players st' (normalizePhone (str_or (pr_phone req) [])))
             (lastPath (str_or (pr_gameId req) [])) = Some (Num (num_or (pr_score req) 0))
         \<and> field_of (players st' (normalizePhone (str_or (pr_phone req) [])))
             (bestPath (str_or (pr_gameId req) []))
             = Some (Num (max best (num_or (pr_score req) 0)))"
  using assms
  by (auto simp: partyResult_def Let_def field_of_def set_merge_award_fields
           split: if_splits sum.splits fsvalue.splits)

text \<open>
  The award writes the best score with \<^verbatim>\<open>set\<close>, under the top-level field named
  \<^verbatim>\<open>partyScores.<game>.bestScore\<close>, and reads the current best with \<^verbatim>\<open>snap.get\<close>, along
  the nested path of that name. No handler writes a top-level field \<^verbatim>\<open>partyScores\<close>, so
  in every history from the empty store the award reads no current best, and the stored
  best score is the maximum of 0 and the score just submitted.
\<close>

lemma award_best_is_max_zero_score:
  assumes "partyResult now req (run rs empty_state) = (Ok, st')"
  shows "field_of (players st' (normalizePhone (str_or (pr_phone req) [])))
           (bestPath (str_or (pr_gameId req) []))
         = Some (Num (max 0 (num_or (pr_score req) 0)))"
proof -
  have inv: "scores_inv (run rs empty_state)"
    by (rule scores_inv_run) (rule scores_inv_empty)
  from partyResult_Ok_fields [OF assms] obtain best where
    b: "currentBest (players (run rs empty_state) (normalizePhone (str_or (pr_phone req) [])))
             (str_or (pr_gameId req) []) = Inr (Num best)"
    and f: "field_of (players st' (normalizePhone (str_or (pr_phone req) [])))
             (bestPath (str_or (pr_gameId req) []))
             = Some (Num (max best (num_or (pr_score req) 0)))"
    by blast
  from scores_inv_currentBest [OF inv b] have "best = 0" by simp
  with f show ?thesis by simp
qed

text \<open>
  By the default 0 of the current best, a score below 0 is never stored as the best score:
  one award with the score \<open>- 5\<close> to a player without a record stores the best score 0.
\<close>

lemma award_floors_best_at_zero:
  "partyResult 1 (run_award (- 5) 0) empty_state
     = (Ok, snd (partyResult 1 (run_award (- 5) 0) empty_state))
   \<and> field_of (players (snd (partyResult 1 (run_award (- 5) 0) empty_state)) ''5550100'')
        (bestPath ''run'') = Some (Num 0)"
  by (simp add: eval_defs)

text \<open>
  Claim C5 fails on the code: the stored best score is not the maximum of the scores
  submitted for the game. In the scenario the two committed awards for the game
  \<^verbatim>\<open>run\<close> submit the scores 10 and 3; after them the last score is 3, as claimed, but
  the stored best score is 3 as well, where the maximum of the submitted scores is 10.
  The second award read no current best, because the first had stored it under a
  top-level field and not along the path that \<^verbatim>\<open>snap.get\<close> follows.
\<close>

theorem best_score_is_latest_not_maximum:
  "map ev_score (events (run scenario empty_state)) = [Some 10, Some 3]
   \<and> currentBest (players (run (take 2 scenario) empty_state) ''5550100'') ''run''
       = Inr (Num 0)
   \<and> field_of (players (run (take 2 scenario) empty_state) ''5550100'') (bestPath ''run'')
       = Some (Num 10)
   \<and> field_of (players (run scenario empty_state) ''5550100'') (lastPath ''run'')
       = Some (Num 3)
   \<and> field_of (players (run scenario empty_state) ''5550100'') (bestPath ''run'')
       = Some (Num 3)
   \<and> Max (set [10, 3]) = (10 :: int)"
  by (simp add: eval_defs)

theorem best_score_is_latest_not_maximum_witness:
  "field_of (players (run scenario empty_state) ''5550100'') (bestPath ''run'')
     \<noteq> Some (Num (Max (set [10, 3])))"
  using best_score_is_latest_not_maximum by simp

text \<open>
  Claim C10: after any history from the empty store, a committed award leaves a stored
  best score for the awarded game that is an integer and at least 0, whatever the
  submitted scores were.
\<close>

theorem award_best_nonneg:
  assumes "partyResult now req (run rs empty_state) = (Ok, st')"
  shows "\<exists>b. field_of (players st' (normalizePhone (str_or (pr_phone req) [])))
               (bestPath (str_or (pr_gameId req) [])) = Some (Num b) \<and> 0 \<le> b"
proof -
  have inv: "scores_inv (run rs empty_state)"
    by (rule scores_inv_run) (rule scores_inv_empty)
  from partyResult_Ok_fields [OF assms] obtain best where
    b: "currentBest (players (run rs empty_state) (normalizePhone (str_or (pr_phone req) [])))
             (str_or (pr_gameId req) []) = Inr (Num best)"
    and f: "field_of (players st' (normalizePhone (str_or (pr_phone req) [])))
             (bestPath (str_or (pr_gameId req) []))
             = Some (Num (max best (num_or (pr_score req) 0)))"
    by blast
  from scores_inv_currentBest [OF inv b] have "best = 0" by simp
  with f show ?thesis by simp
qed

theorem award_best_nonneg_witness:
  "\<exists>b. field_of (players (snd (partyResult 4 (run_award (- 5) 0) (run scenario empty_state)))
             ''5550100'') (bestPath ''run'') = Some (Num b) \<and> 0 \<le> b"
proof -
  have "partyResult 4 (run_award (- 5) 0) (run scenario empty_state)
          = (Ok, snd (partyResult 4 (run_award (- 5) 0) (run scenario empty_state)))"
    by (simp add: eval_defs)
  from award_best_nonneg [OF this] show ?thesis
    by (simp add: run_award_def kept_def)
qed

subsection \<open>Registration\<close>

lemma register_empty_key:
  assumes "p \<noteq> []" and "normalizePhone p = []"
  shows "register now \<lparr>reg_name = n, reg_phone = Some p\<rparr> st
           = (Status500 InvalidDocumentPath, st)"
  using assms by (simp add: register_def)

text \<open>
  Claim C6 fails on the code: a phone that is not empty but normalises to the empty key
  passes the check \<^verbatim>\<open>!phone\<close>, and \<^verbatim>\<open>players.doc("")\<close> throws, so the handler answers
  status 500 instead of the status 400 \<^verbatim>\<open>phone required\<close>; no record is written. The
  balance query checks the normalised key and answers \<^verbatim>\<open>phone required\<close> for the same
  phone.
\<close>

theorem register_unnormalisable_phone:
  "register 1 \<lparr>reg_name = Some ''Ann'', reg_phone = Some ''abc''\<rparr> empty_state
     = (Status500 InvalidDocumentPath, empty_state)
   \<and> coins_query (Some ''abc'') empty_state = (Status400 ''phone required'', empty_state)"
  by (simp add: register_def coins_query_def kept_def)

theorem register_unnormalisable_phone_witness:
  "fst (register 1 \<lparr>reg_name = Some ''Ann'', reg_phone = Some ''abc''\<rparr> empty_state)
     \<noteq> Status400 ''phone required''"
  using register_unnormalisable_phone by simp

text \<open>
  Claim C7: an accepted registration appends no event, changes no other player's record,
  and in the player's own record changes no field other than \<^verbatim>\<open>name\<close>, \<^verbatim>\<open>phone\<close>,
  \<^verbatim>\<open>lastSource\<close> and \<^verbatim>\<open>updatedAt\<close>: the balance and every score field keep their prior
  values, whatever they were. The four fields hold the supplied name (or the empty
  string), the key, \<^verbatim>\<open>registration\<close> and the time of the commit.
\<close>

theorem register_frame:
  assumes "fst (register now req st) = Ok"
  shows "events (snd (register now req st)) = events st
       \<and> (\<forall>k. k \<noteq> normalizePhone (str_or (reg_phone req) []) \<longrightarrow>
              players (snd (register now req st)) k = players st k)
       \<and> (\<forall>f. f \<notin> {''name'', ''phone'', ''lastSource'', ''updatedAt''} \<longrightarrow>
              field_of (players (snd (register now req st))
                          (normalizePhone (str_or (reg_phone req) []))) f
                = field_of (players st (normalizePhone (str_or (reg_phone req) []))) f)
       \<and> balance (players (snd (register now req st))
                       (normalizePhone (str_or (reg_phone req) [])))
           = balance (players st (normalizePhone (str_or (reg_phone req) [])))
       \<and> field_of (players (snd (register now req st))
                      (normalizePhone (str_or (reg_phone req) []))) ''name''
           = Some (Str (str_or (reg_name req) []))
       \<and> field_of (players (snd (register now req st))
                      (normalizePhone (str_or (reg_phone req) []))) ''phone''
           = Some (Str (normalizePhone (str_or (reg_phone req) [])))
       \<and> field_of (players (snd (register now req st))
                      (normalizePhone (str_or (reg_phone req) []))) ''lastSource''
           = Some (Str ''registration'')
       \<and> field_of (players (snd (register now req st))
                      (normalizePhone (str_or (reg_phone req) []))) ''updatedAt''
           = Some (Time now)"
  using assms
  by (auto simp: register_def Let_def field_of_def set_merge_def write_field_def
                 balance_def snap_get_coins
           split: if_splits option.splits)

theorem register_frame_witness:
  "balance (players (snd (register 4 ann_register (run scenario empty_state))) ''5550100'')
     = Inr (Num 7)
   \<and> field_of (players (snd (register 4 ann_register (run scenario empty_state))) ''5550100'')
       (lastPath ''run'') = Some (Num 3)
   \<and> field_of (players (snd (register 4 ann_register (run scenario empty_state))) ''5550100'')
       ''updatedAt'' = Some (Time 4)"
proof -
  have ok: "fst (register 4 ann_register (run scenario empty_state)) = Ok"
    by (simp add: register_def Let_def ann_register_def kept_def)
  have k: "normalizePhone (str_or (reg_phone ann_register) []) = ''5550100''"
    by (simp add: ann_register_def kept_def)
  have "lastPath ''run'' \<notin> {''name'', ''phone'', ''lastSource'', ''updatedAt''}"
    by simp
  with register_frame [OF ok] show ?thesis
    by (simp add: k scenario_coins scenario_last)
qed

subsection \<open>Balance query\<close>



end
